theory Spec2Isabelle
  imports Complex_Main
begin

section \<open>Data model: the two tables of the migrations\<close>

text \<open>
  Identifiers (UUID columns) are natural numbers, timestamps are milliseconds since the
  epoch, money columns (\<^verbatim>\<open>DECIMAL(10,2)\<close>) are integers counting cents. A nullable column
  is an \<open>option\<close>. The \<^verbatim>\<open>updated_at\<close> columns and their trigger are left out: no
  handler reads them back into a decision.
\<close>

type_synonym uuid = nat
type_synonym timestamp = int

datatype tx_status = Pending | Processing | Completed | Failed | Cancelled

record payment_link =
  pl_id :: uuid
  pl_user_id :: uuid
  pl_link_id :: string
  pl_amount :: int
  pl_currency :: string
  pl_description :: "string option"
  pl_expires_at :: "timestamp option"
  pl_is_active :: bool
  pl_max_uses :: "int option"
  pl_current_uses :: int
  pl_created_at :: timestamp

record transaction =
  tx_id :: uuid
  tx_payment_link_id :: uuid
  tx_payer_email :: string
  tx_payer_name :: string
  tx_amount :: int
  tx_currency :: string
  tx_status :: tx_status
  tx_payment_method :: string
  tx_card_last4 :: "string option"
  tx_card_brand :: "string option"
  tx_bank_response_code :: "string option"
  tx_bank_response_message :: "string option"
  tx_failure_reason :: "string option"
  tx_processed_at :: "timestamp option"
  tx_created_at :: timestamp

record db =
  payment_links :: "payment_link list"
  transactions :: "transaction list"

text \<open>The errors PostgreSQL raises for the statements the handlers send.\<close>

datatype db_error =
    UniqueViolation
  | ForeignKeyViolation
  | CheckViolation
  | StringTooLong
  | NumericOverflow

definition INT_MAX :: int where
  "INT_MAX = 2147483647"

definition DECIMAL_10_2_LIMIT :: int where
  "DECIMAL_10_2_LIMIT = 10000000000"

definition is_terminal :: "tx_status \<Rightarrow> bool" where
  "is_terminal s = (s = Completed \<or> s = Failed \<or> s = Cancelled)"

subsection \<open>The SQL statements of the handlers\<close>

text \<open>\<^verbatim>\<open>SELECT ... FROM payment_links pl WHERE pl.link_id = $1\<close>, then \<^verbatim>\<open>rows[0]\<close>.\<close>

definition select_link :: "db \<Rightarrow> string \<Rightarrow> payment_link option" where
  "select_link d lid = find (\<lambda>l. pl_link_id l = lid) (payment_links d)"

definition find_tx :: "db \<Rightarrow> uuid \<Rightarrow> transaction option" where
  "find_tx d u = find (\<lambda>t. tx_id t = u) (transactions d)"

definition find_link :: "db \<Rightarrow> uuid \<Rightarrow> payment_link option" where
  "find_link d u = find (\<lambda>l. pl_id l = u) (payment_links d)"

text \<open>
  \<^verbatim>\<open>INSERT INTO transactions (...) VALUES (...)\<close> under the table definition of migration
  003: the \<^verbatim>\<open>VARCHAR(n)\<close> widths, \<^verbatim>\<open>CHECK (amount > 0)\<close>, the primary key and the foreign
  key to \<^verbatim>\<open>payment_links\<close>.
\<close>

definition insert_transaction :: "db \<Rightarrow> transaction \<Rightarrow> db_error + db" where
  "insert_transaction d t =
     (if 255 < length (tx_payer_email t) \<or> 255 < length (tx_payer_name t)
         \<or> 3 < length (tx_currency t) \<or> 50 < length (tx_payment_method t)
         \<or> 4 < (case tx_card_last4 t of None \<Rightarrow> 0 | Some s \<Rightarrow> length s)
         \<or> 20 < (case tx_card_brand t of None \<Rightarrow> 0 | Some s \<Rightarrow> length s)
      then Inl StringTooLong
      else if DECIMAL_10_2_LIMIT \<le> \<bar>tx_amount t\<bar> then Inl NumericOverflow
      else if tx_amount t \<le> 0 then Inl CheckViolation
      else if find_tx d (tx_id t) \<noteq> None then Inl UniqueViolation
      else if find_link d (tx_payment_link_id t) = None then Inl ForeignKeyViolation
      else Inr (d\<lparr>transactions := transactions d @ [t]\<rparr>))"

text \<open>
  \<^verbatim>\<open>UPDATE transactions SET status = $1, bank_response_code = $2,
  bank_response_message = $3, failure_reason = $4, processed_at = CURRENT_TIMESTAMP
  WHERE id = $5\<close>. The column \<^verbatim>\<open>bank_response_code\<close> is \<^verbatim>\<open>VARCHAR(10)\<close>: assigning a longer
  value to a row is an error, and the statement changes nothing.
\<close>

definition set_outcome ::
  "tx_status \<Rightarrow> string \<Rightarrow> string \<Rightarrow> string option \<Rightarrow> timestamp \<Rightarrow> transaction \<Rightarrow> transaction" where
  "set_outcome st code msg reason now t =
     t\<lparr>tx_status := st, tx_bank_response_code := Some code,
       tx_bank_response_message := Some msg, tx_failure_reason := reason,
       tx_processed_at := Some now\<rparr>"

definition update_transaction ::
  "db \<Rightarrow> uuid \<Rightarrow> tx_status \<Rightarrow> string \<Rightarrow> string \<Rightarrow> string option \<Rightarrow> timestamp \<Rightarrow> db_error + db" where
  "update_transaction d u st code msg reason now =
     (if find_tx d u = None then Inr d
      else if 10 < length code then Inl StringTooLong
      else Inr (d\<lparr>transactions :=
                  map (\<lambda>t. if tx_id t = u then set_outcome st code msg reason now t else t)
                    (transactions d)\<rparr>))"

text \<open>
  \<^verbatim>\<open>UPDATE payment_links SET current_uses = current_uses + 1 WHERE id = $1\<close> under the
  constraint \<^verbatim>\<open>check_uses_limit CHECK (max_uses IS NULL OR current_uses <= max_uses)\<close> of
  migration 002 and the range of \<^verbatim>\<open>INTEGER\<close>.
\<close>

definition check_uses_limit :: "payment_link \<Rightarrow> bool" where
  "check_uses_limit l =
     (case pl_max_uses l of None \<Rightarrow> True | Some m \<Rightarrow> pl_current_uses l \<le> m)"

definition bump_uses :: "uuid \<Rightarrow> payment_link \<Rightarrow> payment_link" where
  "bump_uses u l = (if pl_id l = u then l\<lparr>pl_current_uses := pl_current_uses l + 1\<rparr> else l)"

definition increment_uses :: "db \<Rightarrow> uuid \<Rightarrow> db_error + db" where
  "increment_uses d u =
     (if list_ex (\<lambda>l. pl_id l = u \<and> INT_MAX < pl_current_uses l + 1) (payment_links d)
        then Inl NumericOverflow
      else if list_ex (\<lambda>l. pl_id l = u \<and> \<not> check_uses_limit (bump_uses u l)) (payment_links d)
        then Inl CheckViolation
      else Inr (d\<lparr>payment_links := map (bump_uses u) (payment_links d)\<rparr>))"

section \<open>The environment of the handlers\<close>

text \<open>
  What the handlers take from outside the repository: the e-mail validator and sanitizer of
  express-validator, the year \<^verbatim>\<open>new Date().getFullYear()\<close> read when the routes are loaded,
  and \<^verbatim>\<open>parseInt(process.env.PAYMENT_LINK_EXPIRY_HOURS)\<close> (\<open>None\<close> when that is NaN: the
  variable is unset or does not start with a number). A clock reading gives \<^verbatim>\<open>moment()\<close> as
  milliseconds and as the calendar year and month it falls in.
\<close>

record env =
  isEmail :: "string \<Rightarrow> bool"
  normalizeEmail :: "string \<Rightarrow> string"
  startYear :: int
  PAYMENT_LINK_EXPIRY_HOURS :: "int option"

record clock =
  now_ms :: timestamp
  now_year :: int
  now_month :: int

section \<open>POST /pay/:linkId/process\<close>

text \<open>
  The request body. A missing string field is the empty string (every validator of the
  route rejects both). \<open>expiryMonth\<close> and \<open>expiryYear\<close> are the integers the fields
  denote, \<open>None\<close> when \<^verbatim>\<open>isInt\<close> finds no integer there.
\<close>

record process_body =
  payerEmail :: string
  payerName :: string
  cardNumber :: string
  expiryMonth :: "int option"
  expiryYear :: "int option"
  cvv :: string

type_synonym validation_error = "string \<times> string"

definition is_digit :: "char \<Rightarrow> bool" where
  "is_digit c = (c \<in> set ''0123456789'')"

text \<open>The regular expression \<^verbatim>\<open>/^\d+$/\<close>.\<close>

definition matches_digits :: "string \<Rightarrow> bool" where
  "matches_digits s = (s \<noteq> [] \<and> list_all is_digit s)"

definition is_space :: "char \<Rightarrow> bool" where
  "is_space c = (c \<in> set [CHR '' '', CHR 0x09, CHR 0x0A, CHR 0x0B, CHR 0x0C, CHR 0x0D])"

definition trim :: "string \<Rightarrow> string" where
  "trim s = rev (dropWhile is_space (rev (dropWhile is_space s)))"

definition isLength :: "nat \<Rightarrow> nat \<Rightarrow> string \<Rightarrow> bool" where
  "isLength lo hi s = (lo \<le> length s \<and> length s \<le> hi)"

definition isInt_min :: "int \<Rightarrow> int option \<Rightarrow> bool" where
  "isInt_min lo v = (case v of None \<Rightarrow> False | Some n \<Rightarrow> lo \<le> n)"

definition isInt_range :: "int \<Rightarrow> int \<Rightarrow> int option \<Rightarrow> bool" where
  "isInt_range lo hi v = (case v of None \<Rightarrow> False | Some n \<Rightarrow> lo \<le> n \<and> n \<le> hi)"

definition check :: "bool \<Rightarrow> string \<Rightarrow> string \<Rightarrow> validation_error list" where
  "check ok field msg = (if ok then [] else [(field, msg)])"

text \<open>
  The validation chains of the route, in their order; express-validator runs every
  validator of every chain, and \<^verbatim>\<open>errors.array()\<close> holds one entry for each that failed.
\<close>

definition validate_process :: "env \<Rightarrow> process_body \<Rightarrow> validation_error list" where
  "validate_process E b =
     check (isEmail E (payerEmail b)) ''payerEmail'' ''Please provide a valid email address''
     @ check (isLength 1 255 (trim (payerName b))) ''payerName''
         ''Payer name is required and must be less than 255 characters''
     @ check (isLength 13 19 (cardNumber b)) ''cardNumber''
         ''Card number must be between 13 and 19 digits''
     @ check (matches_digits (cardNumber b)) ''cardNumber''
         ''Card number must contain only digits''
     @ check (isInt_range 1 12 (expiryMonth b)) ''expiryMonth''
         ''Expiry month must be between 1 and 12''
     @ check (isInt_min (startYear E) (expiryYear b)) ''expiryYear''
         ''Expiry year must be current year or later''
     @ check (isLength 3 4 (cvv b)) ''cvv'' ''CVV must be 3 or 4 digits''
     @ check (matches_digits (cvv b)) ''cvv'' ''CVV must contain only digits''"

text \<open>The sanitizers \<^verbatim>\<open>normalizeEmail()\<close> and \<^verbatim>\<open>trim()\<close> rewrite the body.\<close>

definition sanitize :: "env \<Rightarrow> process_body \<Rightarrow> process_body" where
  "sanitize E b = b\<lparr>payerEmail := normalizeEmail E (payerEmail b), payerName := trim (payerName b)\<rparr>"

text \<open>
  \<^verbatim>\<open>getCardBrand\<close>: the patterns \<^verbatim>\<open>/^4/\<close>, \<^verbatim>\<open>/^5[1-5]/\<close>, \<^verbatim>\<open>/^3[47]/\<close>, \<^verbatim>\<open>/^6(?:011|5)/\<close> in the
  order of the object literal.
\<close>

definition getCardBrand :: "string \<Rightarrow> string" where
  "getCardBrand n =
     (if take 1 n = ''4'' then ''Visa''
      else if take 1 n = ''5'' \<and> take 1 (drop 1 n) \<noteq> [] \<and> hd (drop 1 n) \<in> set ''12345''
        then ''Mastercard''
      else if take 1 n = ''3'' \<and> take 1 (drop 1 n) \<noteq> [] \<and> hd (drop 1 n) \<in> set ''47''
        then ''Amex''
      else if take 4 n = ''6011'' \<or> take 2 n = ''65'' then ''Discover''
      else ''Unknown'')"

text \<open>\<^verbatim>\<open>cardNumber.slice(-4)\<close>.\<close>

definition slice_last :: "nat \<Rightarrow> string \<Rightarrow> string" where
  "slice_last k s = drop (length s - k) s"

record bank_response =
  br_status :: tx_status
  responseCode :: string
  responseMessage :: string
  failureReason :: "string option"

text \<open>
  \<^verbatim>\<open>simulateBankAPI\<close> after its delay: \<^verbatim>\<open>parseInt\<close> of the last character is 0 exactly when
  that character is the digit 0.
\<close>

definition ends_in_zero :: "string \<Rightarrow> bool" where
  "ends_in_zero s = (s \<noteq> [] \<and> last s = CHR ''0'')"

definition simulateBankAPI :: "string \<Rightarrow> string \<Rightarrow> bank_response" where
  "simulateBankAPI cardno cvvno =
     (if ends_in_zero cardno then
        \<lparr>br_status = Failed, responseCode = ''DECLINED'',
         responseMessage = ''Card declined by issuer'',
         failureReason = Some ''Insufficient funds''\<rparr>
      else if ends_in_zero cvvno then
        \<lparr>br_status = Failed, responseCode = ''INVALID_CVV'',
         responseMessage = ''Invalid security code'',
         failureReason = Some ''Incorrect CVV''\<rparr>
      else
        \<lparr>br_status = Completed, responseCode = ''APPROVED'',
         responseMessage = ''Transaction approved'',
         failureReason = None\<rparr>)"

text \<open>What the handler answers: the JSON bodies by their kind, and \<^verbatim>\<open>next(error)\<close>.\<close>

record tx_view =
  v_id :: uuid
  v_status :: tx_status
  v_amount :: int
  v_currency :: string
  v_createdAt :: timestamp
  v_processedAt :: timestamp

datatype response =
    ValidationFailed "validation_error list"
  | NotFound
  | LinkInactive
  | LinkExpired
  | LinkExhausted
  | CardExpired
  | PaymentProcessed tx_view bank_response
  | ErrorPassed db_error


text \<open>
  The \<^verbatim>\<open>error\<close> field of the JSON body. For an exception of the database the error
  handler answers with PostgreSQL's own message unless it maps the error code.
\<close>

fun error_text :: "response \<Rightarrow> string option" where
  "error_text (ValidationFailed _) = Some ''Validation failed''"
| "error_text NotFound = Some ''Payment link not found''"
| "error_text LinkInactive = Some ''This payment link is inactive''"
| "error_text LinkExpired = Some ''This payment link has expired''"
| "error_text LinkExhausted = Some ''This payment link has reached its maximum usage limit''"
| "error_text CardExpired = Some ''Card has expired''"
| "error_text (PaymentProcessed _ _) = None"
| "error_text (ErrorPassed UniqueViolation) = Some ''Duplicate entry - this record already exists''"
| "error_text (ErrorPassed ForeignKeyViolation) = Some ''Referenced record does not exist''"
| "error_text (ErrorPassed _) = None"

text \<open>
  The handler is an async function: between two \<^verbatim>\<open>await\<close>s it runs alone, and at each
  \<^verbatim>\<open>await\<close> other requests run. A request in flight is at one of these points.
\<close>

datatype task =
    Received string process_body
  | Resolved process_body payment_link
  | Inserted process_body payment_link uuid timestamp
  | Authorized payment_link uuid timestamp bank_response
  | Recorded payment_link uuid timestamp bank_response
  | Done response

text \<open>
  The three conditions of the handler on the row it read. JavaScript's
  \<^verbatim>\<open>paymentLink.max_uses && ...\<close> is false for \<^verbatim>\<open>null\<close> and for 0.
\<close>

definition link_expired :: "clock \<Rightarrow> payment_link \<Rightarrow> bool" where
  "link_expired c l = (case pl_expires_at l of None \<Rightarrow> False | Some e \<Rightarrow> e < now_ms c)"

definition link_exhausted :: "payment_link \<Rightarrow> bool" where
  "link_exhausted l =
     (case pl_max_uses l of None \<Rightarrow> False | Some m \<Rightarrow> m \<noteq> 0 \<and> m \<le> pl_current_uses l)"

text \<open>
  \<^verbatim>\<open>moment(`${expiryYear}-${month}-01`).isBefore(moment(), 'month')\<close>: the card's month lies
  before the current month.
\<close>

definition card_expired :: "clock \<Rightarrow> process_body \<Rightarrow> bool" where
  "card_expired c b =
     (case (expiryYear b, expiryMonth b) of
        (Some y, Some m) \<Rightarrow> y < now_year c \<or> (y = now_year c \<and> m < now_month c)
      | _ \<Rightarrow> False)"

text \<open>From the arrival of the request to the first \<^verbatim>\<open>INSERT\<close>: validation, lookup, checks.\<close>

definition resolve :: "env \<Rightarrow> clock \<Rightarrow> db \<Rightarrow> string \<Rightarrow> process_body \<Rightarrow> task" where
  "resolve E c d lid b =
     (if validate_process E b \<noteq> [] then Done (ValidationFailed (validate_process E b))
      else case select_link d lid of
        None \<Rightarrow> Done NotFound
      | Some l \<Rightarrow>
          if \<not> pl_is_active l then Done LinkInactive
          else if link_expired c l then Done LinkExpired
          else if link_exhausted l then Done LinkExhausted
          else if card_expired c (sanitize E b) then Done CardExpired
          else Resolved (sanitize E b) l)"

definition new_transaction :: "uuid \<Rightarrow> timestamp \<Rightarrow> process_body \<Rightarrow> payment_link \<Rightarrow> transaction" where
  "new_transaction u now b l =
     \<lparr>tx_id = u, tx_payment_link_id = pl_id l, tx_payer_email = payerEmail b,
      tx_payer_name = payerName b, tx_amount = pl_amount l, tx_currency = pl_currency l,
      tx_status = Processing, tx_payment_method = ''card'',
      tx_card_last4 = Some (slice_last 4 (cardNumber b)),
      tx_card_brand = Some (getCardBrand (cardNumber b)),
      tx_bank_response_code = None, tx_bank_response_message = None,
      tx_failure_reason = None, tx_processed_at = None, tx_created_at = now\<rparr>"

definition payment_processed :: "clock \<Rightarrow> payment_link \<Rightarrow> uuid \<Rightarrow> timestamp \<Rightarrow> bank_response \<Rightarrow> response" where
  "payment_processed c l u created r =
     PaymentProcessed
       \<lparr>v_id = u, v_status = br_status r, v_amount = pl_amount l, v_currency = pl_currency l,
        v_createdAt = created, v_processedAt = now_ms c\<rparr> r"

text \<open>
  One atomic step of a request: the code up to and with its next statement on the
  database. \<open>u\<close> is the value \<^verbatim>\<open>uuidv4()\<close> gives when the step asks for one. An exception
  of \<^verbatim>\<open>query\<close> goes to \<^verbatim>\<open>catch (error) { next(error); }\<close> and ends the request. The step
  of a request in \<open>Inserted\<close> is the return of \<^verbatim>\<open>await simulateBankAPI(...)\<close>, at whatever
  clock reading it comes: the handler sets no timer of its own.
\<close>

fun task_step :: "env \<Rightarrow> clock \<Rightarrow> uuid \<Rightarrow> db \<Rightarrow> task \<Rightarrow> db \<times> task" where
  "task_step E c u d (Received lid b) = (d, resolve E c d lid b)"
| "task_step E c u d (Resolved b l) =
     (case insert_transaction d (new_transaction u (now_ms c) b l) of
        Inl e \<Rightarrow> (d, Done (ErrorPassed e))
      | Inr d' \<Rightarrow> (d', Inserted b l u (now_ms c)))"
| "task_step E c u d (Inserted b l t created) =
     (d, Authorized l t created (simulateBankAPI (cardNumber b) (cvv b)))"
| "task_step E c u d (Authorized l t created r) =
     (case update_transaction d t (br_status r) (responseCode r) (responseMessage r)
             (failureReason r) (now_ms c) of
        Inl e \<Rightarrow> (d, Done (ErrorPassed e))
      | Inr d' \<Rightarrow>
          if br_status r = Completed then (d', Recorded l t created r)
          else (d', Done (payment_processed c l t created r)))"
| "task_step E c u d (Recorded l t created r) =
     (case increment_uses d (pl_id l) of
        Inl e \<Rightarrow> (d, Done (ErrorPassed e))
      | Inr d' \<Rightarrow> (d', Done (payment_processed c l t created r)))"
| "task_step E c u d (Done r) = (d, Done r)"

text \<open>
  One request served with no other request in between: its five steps in a row, the
  \<open>k\<close>-th at clock reading \<open>cs k\<close>.
\<close>

definition process_payment ::
  "env \<Rightarrow> (nat \<Rightarrow> clock) \<Rightarrow> uuid \<Rightarrow> db \<Rightarrow> string \<Rightarrow> process_body \<Rightarrow> db \<times> task" where
  "process_payment E cs u d lid b =
     (let (d1, t1) = task_step E (cs 0) u d (Received lid b);
          (d2, t2) = task_step E (cs 1) u d1 t1;
          (d3, t3) = task_step E (cs 2) u d2 t2;
          (d4, t4) = task_step E (cs 3) u d3 t3
      in task_step E (cs 4) u d4 t4)"

section \<open>The link routes: POST and PUT /api/payments/links\<close>

text \<open>
  A body field that a validator parses: absent, present but rejected by the parser
  (\<^verbatim>\<open>isFloat\<close>, \<^verbatim>\<open>isISO8601\<close>, \<^verbatim>\<open>isInt\<close>, \<^verbatim>\<open>isBoolean\<close>), or present with the value it
  denotes. \<open>amount\<close> is the decimal number written in the request.
\<close>

datatype 'a field = Absent | Invalid | Given 'a

record create_body =
  amount :: "rat field"
  currency :: "string option"
  description :: "string option"
  expiresAt :: "timestamp field"
  maxUses :: "int field"

definition validate_create :: "create_body \<Rightarrow> validation_error list" where
  "validate_create b =
     check (case amount b of Given a \<Rightarrow> 1 / 100 \<le> a | _ \<Rightarrow> False) ''amount''
       ''Amount must be a positive number''
     @ check (case currency b of None \<Rightarrow> True | Some s \<Rightarrow> isLength 3 3 s) ''currency''
         ''Currency must be a 3-letter code''
     @ check (case description b of None \<Rightarrow> True | Some s \<Rightarrow> isLength 0 500 s) ''description''
         ''Description must be less than 500 characters''
     @ check (expiresAt b \<noteq> Invalid) ''expiresAt'' ''Expiry date must be a valid ISO 8601 date''
     @ check (case maxUses b of Absent \<Rightarrow> True | Invalid \<Rightarrow> False | Given n \<Rightarrow> 1 \<le> n) ''maxUses''
         ''Max uses must be a positive integer''"

text \<open>\<^verbatim>\<open>parseInt(process.env.PAYMENT_LINK_EXPIRY_HOURS) || 24\<close>: NaN and 0 are falsy.\<close>

definition defaultExpiryHours :: "env \<Rightarrow> int" where
  "defaultExpiryHours E =
     (case PAYMENT_LINK_EXPIRY_HOURS E of None \<Rightarrow> 24 | Some h \<Rightarrow> if h = 0 then 24 else h)"

definition HOUR_MS :: int where
  "HOUR_MS = 3600000"

definition expiryDate :: "env \<Rightarrow> clock \<Rightarrow> create_body \<Rightarrow> timestamp" where
  "expiryDate E c b =
     (case expiresAt b of
        Given t \<Rightarrow> t
      | _ \<Rightarrow> now_ms c + defaultExpiryHours E * HOUR_MS)"

text \<open>A value stored into \<^verbatim>\<open>DECIMAL(10,2)\<close> is rounded to cents, halves away from zero.\<close>

definition to_cents :: "rat \<Rightarrow> int" where
  "to_cents a = (if 0 \<le> a then \<lfloor>a * 100 + 1 / 2\<rfloor> else - \<lfloor>- a * 100 + 1 / 2\<rfloor>)"

definition field_option :: "'a field \<Rightarrow> 'a option" where
  "field_option f = (case f of Given x \<Rightarrow> Some x | _ \<Rightarrow> None)"

text \<open>
  \<^verbatim>\<open>INSERT INTO payment_links (...)\<close> under the table definition of migration 002; \<open>i\<close> is
  the value of \<^verbatim>\<open>gen_random_uuid()\<close>, \<^verbatim>\<open>current_uses\<close> takes its default 0.
\<close>

definition insert_payment_link :: "db \<Rightarrow> payment_link \<Rightarrow> db_error + db" where
  "insert_payment_link d l =
     (if 50 < length (pl_link_id l) \<or> 3 < length (pl_currency l) then Inl StringTooLong
      else if DECIMAL_10_2_LIMIT \<le> \<bar>pl_amount l\<bar>
           \<or> INT_MAX < (case pl_max_uses l of None \<Rightarrow> 0 | Some m \<Rightarrow> \<bar>m\<bar>)
        then Inl NumericOverflow
      else if pl_amount l \<le> 0 \<or> \<not> check_uses_limit l then Inl CheckViolation
      else if find_link d (pl_id l) \<noteq> None \<or> select_link d (pl_link_id l) \<noteq> None
        then Inl UniqueViolation
      else Inr (d\<lparr>payment_links := payment_links d @ [l]\<rparr>))"

datatype link_response =
    LinkValidationFailed "validation_error list"
  | LinkCreated payment_link
  | LinkUpdated payment_link
  | LinkNotFound
  | NoFieldsToUpdate
  | LinkErrorPassed db_error

definition new_payment_link ::
  "env \<Rightarrow> clock \<Rightarrow> uuid \<Rightarrow> string \<Rightarrow> uuid \<Rightarrow> create_body \<Rightarrow> payment_link" where
  "new_payment_link E c i token user b =
     \<lparr>pl_id = i, pl_user_id = user, pl_link_id = token,
      pl_amount = (case amount b of Given a \<Rightarrow> to_cents a | _ \<Rightarrow> 0),
      pl_currency = (case currency b of None \<Rightarrow> ''USD'' | Some s \<Rightarrow> s),
      pl_description = description b,
      pl_expires_at = Some (expiryDate E c b),
      pl_is_active = True,
      pl_max_uses = field_option (maxUses b),
      pl_current_uses = 0,
      pl_created_at = now_ms c\<rparr>"

text \<open>
  The handler of \<^verbatim>\<open>POST /links\<close> for the authenticated \<open>user\<close>; \<open>token\<close> is
  \<^verbatim>\<open>uuidv4().replace(/-/g, '').substring(0, 16)\<close>.
\<close>

definition create_link ::
  "env \<Rightarrow> clock \<Rightarrow> uuid \<Rightarrow> string \<Rightarrow> uuid \<Rightarrow> db \<Rightarrow> create_body \<Rightarrow> db \<times> link_response" where
  "create_link E c i token user d b =
     (if validate_create b \<noteq> [] then (d, LinkValidationFailed (validate_create b))
      else case insert_payment_link d (new_payment_link E c i token user b) of
        Inl e \<Rightarrow> (d, LinkErrorPassed e)
      | Inr d' \<Rightarrow> (d', LinkCreated (new_payment_link E c i token user b)))"

record update_body =
  new_description :: "string option"
  new_isActive :: "bool field"

definition validate_update :: "update_body \<Rightarrow> validation_error list" where
  "validate_update b =
     check (case new_description b of None \<Rightarrow> True | Some s \<Rightarrow> isLength 0 500 s) ''description''
       ''Description must be less than 500 characters''
     @ check (new_isActive b \<noteq> Invalid) ''isActive'' ''isActive must be a boolean''"

definition apply_update :: "update_body \<Rightarrow> payment_link \<Rightarrow> payment_link" where
  "apply_update b l =
     l\<lparr>pl_description := (case new_description b of None \<Rightarrow> pl_description l | Some s \<Rightarrow> Some s),
       pl_is_active := (case new_isActive b of Given a \<Rightarrow> a | _ \<Rightarrow> pl_is_active l)\<rparr>"

text \<open>
  The handler of \<^verbatim>\<open>PUT /links/:linkId\<close>: its \<^verbatim>\<open>SELECT\<close> and its \<^verbatim>\<open>UPDATE\<close> have the same
  \<^verbatim>\<open>WHERE link_id = ... AND user_id = ...\<close>, and no handler deletes a link or changes these
  two columns, so both are taken in one step.
\<close>

definition update_link :: "uuid \<Rightarrow> string \<Rightarrow> db \<Rightarrow> update_body \<Rightarrow> db \<times> link_response" where
  "update_link user lid d b =
     (if validate_update b \<noteq> [] then (d, LinkValidationFailed (validate_update b))
      else case find (\<lambda>l. pl_link_id l = lid \<and> pl_user_id l = user) (payment_links d) of
        None \<Rightarrow> (d, LinkNotFound)
      | Some l \<Rightarrow>
          if new_description b = None \<and> new_isActive b = Absent then (d, NoFieldsToUpdate)
          else (d\<lparr>payment_links :=
                    map (\<lambda>l. if pl_link_id l = lid \<and> pl_user_id l = user then apply_update b l else l)
                      (payment_links d)\<rparr>,
                LinkUpdated (apply_update b l)))"

section \<open>The system: requests interleaved at their awaits\<close>

text \<open>
  The state is the database and the requests in flight, by request number. An action is
  the arrival of a payment request, one atomic step of a request in flight (with the clock
  reading and the fresh identifier of that step), or a call of a link route. The other
  routes only read.
\<close>

record system =
  sys_db :: db
  sys_tasks :: "nat \<Rightarrow> task option"

datatype action =
    Arrive nat string process_body
  | Advance nat clock uuid
  | CreateLink clock uuid string uuid create_body
  | UpdateLink uuid string update_body

definition empty_db :: db where
  "empty_db = \<lparr>payment_links = [], transactions = []\<rparr>"

definition init_system :: system where
  "init_system = \<lparr>sys_db = empty_db, sys_tasks = (\<lambda>n. None)\<rparr>"

fun sys_step :: "env \<Rightarrow> system \<Rightarrow> action \<Rightarrow> system" where
  "sys_step E s (Arrive n lid b) =
     (case sys_tasks s n of
        None \<Rightarrow> s\<lparr>sys_tasks := (sys_tasks s)(n := Some (Received lid b))\<rparr>
      | Some _ \<Rightarrow> s)"
| "sys_step E s (Advance n c u) =
     (case sys_tasks s n of
        None \<Rightarrow> s
      | Some t \<Rightarrow>
          \<lparr>sys_db = fst (task_step E c u (sys_db s) t),
           sys_tasks = (sys_tasks s)(n := Some (snd (task_step E c u (sys_db s) t)))\<rparr>)"
| "sys_step E s (CreateLink c i token user b) =
     s\<lparr>sys_db := fst (create_link E c i token user (sys_db s) b)\<rparr>"
| "sys_step E s (UpdateLink user lid b) =
     s\<lparr>sys_db := fst (update_link user lid (sys_db s) b)\<rparr>"

definition exec :: "env \<Rightarrow> action list \<Rightarrow> system" where
  "exec E acts = foldl (sys_step E) init_system acts"

text \<open>The transactions in state completed that reference a link.\<close>

definition completed_for :: "db \<Rightarrow> uuid \<Rightarrow> nat" where
  "completed_for d l =
     length (filter (\<lambda>t. tx_payment_link_id t = l \<and> tx_status t = Completed) (transactions d))"

subsection \<open>The ledger invariant\<close>

text \<open>
  The identifier of the transaction a request has inserted and not yet updated: the
  request is between its \<^verbatim>\<open>INSERT\<close> and its \<^verbatim>\<open>UPDATE transactions\<close>.
\<close>

fun awaiting :: "task \<Rightarrow> uuid option" where
  "awaiting (Inserted b l u c) = Some u"
| "awaiting (Authorized l u c r) = Some u"
| "awaiting _ = None"

text \<open>
  Identifiers are unique in the ledger (the primary key), the row a request waits on is
  there in state processing, and no two requests wait on the same row.
\<close>

definition ledger_inv :: "system \<Rightarrow> bool" where
  "ledger_inv s \<longleftrightarrow>
     distinct (map tx_id (transactions (sys_db s))) \<and>
     (\<forall>n t u. sys_tasks s n = Some t \<longrightarrow> awaiting t = Some u \<longrightarrow>
        (\<exists>row \<in> set (transactions (sys_db s)). tx_id row = u \<and> tx_status row = Processing)) \<and>
     (\<forall>n m t t' u. n \<noteq> m \<longrightarrow> sys_tasks s n = Some t \<longrightarrow> sys_tasks s m = Some t' \<longrightarrow>
        awaiting t = Some u \<longrightarrow> awaiting t' \<noteq> Some u)"

text \<open>
  Two more invariants of the reachable states. A stored \<open>maxUses\<close> is at least 1. And
  the ledger agrees with the requests that have written their outcome: the row of such a
  request is in the gateway's status and holds the gateway's code, message and reason.
\<close>

definition max_uses_positive :: "payment_link \<Rightarrow> bool" where
  "max_uses_positive l = (case pl_max_uses l of None \<Rightarrow> True | Some m \<Rightarrow> 1 \<le> m)"

definition recorded :: "db \<Rightarrow> uuid \<Rightarrow> bank_response \<Rightarrow> bool" where
  "recorded d u r =
     list_ex (\<lambda>row. tx_id row = u \<and> tx_status row = br_status r \<and>
                tx_bank_response_code row = Some (responseCode r) \<and>
                tx_bank_response_message row = Some (responseMessage r) \<and>
                tx_failure_reason row = failureReason r) (transactions d)"

fun settled :: "db \<Rightarrow> task \<Rightarrow> bool" where
  "settled d (Authorized l u c r) = is_terminal (br_status r)"
| "settled d (Recorded l u c r) = (is_terminal (br_status r) \<and> recorded d u r)"
| "settled d (Done (PaymentProcessed v r)) =
     (is_terminal (br_status r) \<and> v_status v = br_status r \<and> recorded d (v_id v) r)"
| "settled d _ = True"

definition outcome_inv :: "system \<Rightarrow> bool" where
  "outcome_inv s \<longleftrightarrow> (\<forall>n t. sys_tasks s n = Some t \<longrightarrow> settled (sys_db s) t)"

section \<open>A deployment and two payers, for the concrete runs\<close>

definition demo_env :: env where
  "demo_env = \<lparr>isEmail = (\<lambda>s. CHR ''@'' \<in> set s), normalizeEmail = (\<lambda>s. s),
     startYear = 2026, PAYMENT_LINK_EXPIRY_HOURS = None\<rparr>"

definition at_ms :: "timestamp \<Rightarrow> clock" where
  "at_ms t = \<lparr>now_ms = t, now_year = 2026, now_month = 11\<rparr>"

definition payer :: "string \<Rightarrow> string \<Rightarrow> process_body" where
  "payer n c = \<lparr>payerEmail = ''ann@example.org'', payerName = ''Ann'',
     cardNumber = n, expiryMonth = Some 12, expiryYear = Some 2027, cvv = c\<rparr>"

definition one_use_link :: create_body where
  "one_use_link = \<lparr>amount = Given 25, currency = None, description = None,
     expiresAt = Absent, maxUses = Given 1\<rparr>"

definition demo_token :: string where
  "demo_token = ''abcdef0123456789''"

text \<open>
  A merchant creates a link with \<open>maxUses = 1\<close>; two payers with approved cards post to
  it, and their requests alternate at every await. \<open>race_begin\<close> ends when the first
  request has written its outcome to the ledger.
\<close>

definition race_begin :: "action list" where
  "race_begin =
     [CreateLink (at_ms 1000) 7 demo_token 1 one_use_link,
      Arrive 0 demo_token (payer ''4111111111111111'' ''123''),
      Arrive 1 demo_token (payer ''4242424242424242'' ''123''),
      Advance 0 (at_ms 2000) 0, Advance 1 (at_ms 2001) 0,
      Advance 0 (at_ms 2002) 100, Advance 1 (at_ms 2003) 101,
      Advance 0 (at_ms 2004) 0, Advance 1 (at_ms 2005) 0,
      Advance 0 (at_ms 4000) 0]"

definition race_end :: "action list" where
  "race_end = [Advance 1 (at_ms 4001) 0, Advance 0 (at_ms 4002) 0, Advance 1 (at_ms 4003) 0]"

text \<open>The database after the merchant has created the link, and nothing else.\<close>

definition linked_db :: db where
  "linked_db = sys_db (exec demo_env [CreateLink (at_ms 1000) 7 demo_token 1 one_use_link])"

definition race_db :: db where
  "race_db = sys_db (exec demo_env (race_begin @ race_end))"

definition first_row :: transaction where
  "first_row =
     \<lparr>tx_id = 100, tx_payment_link_id = 7, tx_payer_email = ''ann@example.org'',
      tx_payer_name = ''Ann'', tx_amount = 2500, tx_currency = ''USD'',
      tx_status = Completed, tx_payment_method = ''card'',
      tx_card_last4 = Some ''1111'', tx_card_brand = Some ''Visa'',
      tx_bank_response_code = Some ''APPROVED'',
      tx_bank_response_message = Some ''Transaction approved'',
      tx_failure_reason = None, tx_processed_at = Some 4000, tx_created_at = 2002\<rparr>"

text \<open>
  One request served alone on the fresh link, its steps a second apart: with a CVV that
  ends in 0 (the gateway declines with code \<^verbatim>\<open>INVALID_CVV\<close>), and with a card number that
  ends in 0 (the gateway declines with code \<^verbatim>\<open>DECLINED\<close>).
\<close>

definition step_clock :: "nat \<Rightarrow> clock" where
  "step_clock k = at_ms (5000 + 1000 * int k)"

definition cvv_run :: "db \<times> task" where
  "cvv_run = process_payment demo_env step_clock 200 linked_db demo_token
     (payer ''4111111111111111'' ''120'')"



text \<open>
  More states and inputs: the link deactivated by its owner, the row of the fresh link, a
  clock a day and an hour later, a payer with a card number of two digits, a token no link
  has, and bodies and configurations for \<^verbatim>\<open>POST /links\<close>.
\<close>

definition inactive_db :: db where
  "inactive_db = sys_db (exec demo_env
     [CreateLink (at_ms 1000) 7 demo_token 1 one_use_link,
      UpdateLink 1 demo_token \<lparr>new_description = None, new_isActive = Given False\<rparr>])"

definition demo_link :: payment_link where
  "demo_link =
     \<lparr>pl_id = 7, pl_user_id = 1, pl_link_id = demo_token, pl_amount = 2500,
      pl_currency = ''USD'', pl_description = None, pl_expires_at = Some 86401000,
      pl_is_active = True, pl_max_uses = Some 1, pl_current_uses = 0, pl_created_at = 1000\<rparr>"

definition late_clock :: "nat \<Rightarrow> clock" where
  "late_clock k = at_ms (90000000 + 1000 * int k)"

definition good_payer :: process_body where
  "good_payer = payer ''4111111111111111'' ''123''"

definition short_card_payer :: process_body where
  "short_card_payer = payer ''41'' ''123''"

definition unknown_token_id :: string where
  "unknown_token_id = ''ffffffffffffffff''"

definition past_expiry_link :: create_body where
  "past_expiry_link = \<lparr>amount = Given 25, currency = Some ''EUR'', description = None,
     expiresAt = Given 500, maxUses = Absent\<rparr>"

definition bad_link :: create_body where
  "bad_link = \<lparr>amount = Given 0, currency = Some ''US'', description = None,
     expiresAt = Invalid, maxUses = Given 0\<rparr>"

definition zero_hours_env :: env where
  "zero_hours_env = demo_env\<lparr>PAYMENT_LINK_EXPIRY_HOURS := Some 0\<rparr>"

definition two_days_env :: env where
  "two_days_env = demo_env\<lparr>PAYMENT_LINK_EXPIRY_HOURS := Some 48\<rparr>"



section \<open>Properties\<close>

lemmas model_defs =
  exec_def demo_env_def at_ms_def payer_def one_use_link_def demo_token_def init_system_def
  empty_db_def
  create_link_def validate_create_def check_def isLength_def new_payment_link_def
  insert_payment_link_def to_cents_def field_option_def expiryDate_def defaultExpiryHours_def
  HOUR_MS_def DECIMAL_10_2_LIMIT_def INT_MAX_def check_uses_limit_def find_link_def
  select_link_def resolve_def validate_process_def trim_def is_space_def matches_digits_def
  is_digit_def isInt_range_def isInt_min_def link_expired_def link_exhausted_def
  card_expired_def sanitize_def insert_transaction_def new_transaction_def find_tx_def
  slice_last_def getCardBrand_def simulateBankAPI_def ends_in_zero_def update_transaction_def
  set_outcome_def increment_uses_def bump_uses_def completed_for_def payment_processed_def
  update_link_def validate_update_def apply_update_def process_payment_def is_terminal_def
  step_clock_def floor_eq_iff

lemmas run_defs = inactive_db_def demo_link_def late_clock_def good_payer_def short_card_payer_def
  unknown_token_id_def past_expiry_link_def bad_link_def zero_hours_env_def two_days_env_def
  linked_db_def race_db_def race_begin_def race_end_def

text \<open>Five steps are enough: the handler has answered.\<close>

lemma process_payment_done: "\<exists>r. snd (process_payment E cs u d lid b) = Done r"
  by (auto simp: process_payment_def resolve_def Let_def split: prod.splits sum.splits option.splits if_splits task.splits)

subsection \<open>Terminal transactions never change\<close>

lemma find_tx_None: "find_tx d u = None \<longleftrightarrow> u \<notin> tx_id ` set (transactions d)"
  by (auto simp: find_tx_def find_None_iff)

lemma insert_transaction_Inr:
  assumes "insert_transaction d t = Inr d'"
  shows "transactions d' = transactions d @ [t]" "payment_links d' = payment_links d"
    "tx_id t \<notin> tx_id ` set (transactions d)"
  using assms by (auto simp: insert_transaction_def find_tx_None split: if_splits)

lemma update_transaction_Inr:
  assumes "update_transaction d u st c m r n = Inr d'"
  shows "map tx_id (transactions d') = map tx_id (transactions d)"
    "payment_links d' = payment_links d"
    "transactions d' = map (\<lambda>t. if tx_id t = u then set_outcome st c m r n t else t) (transactions d)"
  using assms by (auto simp: update_transaction_def set_outcome_def find_tx_def find_None_iff map_idI split: if_splits)

lemma increment_uses_transactions:
  "increment_uses d u = Inr d' \<Longrightarrow> transactions d' = transactions d"
  by (auto simp: increment_uses_def split: if_splits)

lemma create_link_transactions: "transactions (fst (create_link E c i tok usr d b)) = transactions d"
  by (auto simp: create_link_def insert_payment_link_def split: sum.splits if_splits)

lemma update_link_transactions: "transactions (fst (update_link usr lid d b)) = transactions d"
  by (auto simp: update_link_def split: option.splits)

lemma awaiting_resolve: "awaiting (resolve E c d lid b) = None"
  by (auto simp: resolve_def split: option.splits)

text \<open>
  What one step of a request does to the ledger: nothing, or it appends a processing row
  under a fresh identifier, or it rewrites the one row it waited on.
\<close>

lemma task_step_ledger:
  assumes "task_step E c u d t = (d', t')"
  shows "(transactions d' = transactions d \<and> (awaiting t' = None \<or> awaiting t' = awaiting t))
       \<or> (awaiting t = None \<and> awaiting t' = Some u \<and> u \<notin> tx_id ` set (transactions d) \<and>
            (\<exists>row. transactions d' = transactions d @ [row] \<and> tx_id row = u \<and> tx_status row = Processing))
       \<or> (\<exists>w. awaiting t = Some w \<and> awaiting t' = None \<and>
            map tx_id (transactions d') = map tx_id (transactions d) \<and>
            (\<forall>row \<in> set (transactions d). tx_id row \<noteq> w \<longrightarrow> row \<in> set (transactions d')))"
proof (cases t)
  case (Received lid b)
  then show ?thesis using assms by (auto simp: awaiting_resolve)
next
  case (Resolved b l)
  show ?thesis
  proof (cases "insert_transaction d (new_transaction u (now_ms c) b l)")
    case (Inl e)
    then show ?thesis using assms Resolved by auto
  next
    case (Inr d2)
    then show ?thesis using assms Resolved insert_transaction_Inr[OF Inr]
      by (auto simp: new_transaction_def)
  qed
next
  case (Inserted b l w cr)
  then show ?thesis using assms by auto
next
  case (Authorized l w cr r)
  show ?thesis
  proof (cases "update_transaction d w (br_status r) (responseCode r) (responseMessage r) (failureReason r) (now_ms c)")
    case (Inl e)
    then show ?thesis using assms Authorized by auto
  next
    case (Inr d2)
    then show ?thesis using assms Authorized update_transaction_Inr[OF Inr]
      by (auto split: if_splits)
  qed
next
  case (Recorded l w cr r)
  then show ?thesis using assms
    by (auto split: sum.splits dest: increment_uses_transactions)
next
  case (Done r)
  then show ?thesis using assms by auto
qed


lemma ledger_inv_init: "ledger_inv init_system"
  by (simp add: ledger_inv_def init_system_def empty_db_def)

lemma ledger_inv_step:
  assumes "ledger_inv s"
  shows "ledger_inv (sys_step E s a)"
proof (cases a)
  case (Arrive n lid b)
  then show ?thesis using assms
    by (cases "sys_tasks s n") (auto simp: ledger_inv_def)
next
  case (CreateLink c i tok usr b)
  then show ?thesis using assms
    by (simp add: ledger_inv_def create_link_transactions)
next
  case (UpdateLink usr lid b)
  then show ?thesis using assms
    by (simp add: ledger_inv_def update_link_transactions)
next
  case (Advance n c u)
  show ?thesis
  proof (cases "sys_tasks s n")
    case None
    then show ?thesis using assms Advance by simp
  next
    case (Some t)
    obtain d' t' where st: "task_step E c u (sys_db s) t = (d', t')"
      by (cases "task_step E c u (sys_db s) t")
    have s': "sys_step E s a = \<lparr>sys_db = d', sys_tasks = (sys_tasks s)(n := Some t')\<rparr>"
      using Advance Some st by simp
    consider
        (same) "transactions d' = transactions (sys_db s)" "awaiting t' = None \<or> awaiting t' = awaiting t"
      | (ins) row where "awaiting t = None" "awaiting t' = Some u" "u \<notin> tx_id ` set (transactions (sys_db s))"
          "transactions d' = transactions (sys_db s) @ [row]" "tx_id row = u" "tx_status row = Processing"
      | (upd) w where "awaiting t = Some w" "awaiting t' = None"
          "map tx_id (transactions d') = map tx_id (transactions (sys_db s))"
          "\<forall>row \<in> set (transactions (sys_db s)). tx_id row \<noteq> w \<longrightarrow> row \<in> set (transactions d')"
      using task_step_ledger[OF st] by blast
    then show ?thesis
    proof cases
      case same
      then show ?thesis using assms Some unfolding s' ledger_inv_def
        by (auto split: if_splits) (metis+)
    next
      case ins
      then show ?thesis using assms Some unfolding s' ledger_inv_def
        by (auto split: if_splits) (metis image_eqI)+
    next
      case upd
      then show ?thesis using assms Some unfolding s' ledger_inv_def
        by (auto split: if_splits) (metis+)
    qed
  qed
qed


lemma terminal_kept_step:
  assumes "ledger_inv s" and "row \<in> set (transactions (sys_db s))" and "is_terminal (tx_status row)"
  shows "row \<in> set (transactions (sys_db (sys_step E s a)))"
proof (cases a)
  case (Arrive n lid b)
  then show ?thesis using assms(2) by (cases "sys_tasks s n") auto
next
  case (CreateLink c i tok usr b)
  then show ?thesis using assms(2) by (simp add: create_link_transactions)
next
  case (UpdateLink usr lid b)
  then show ?thesis using assms(2) by (simp add: update_link_transactions)
next
  case (Advance n c u)
  show ?thesis
  proof (cases "sys_tasks s n")
    case None
    then show ?thesis using assms(2) Advance by simp
  next
    case (Some t)
    obtain d' t' where st: "task_step E c u (sys_db s) t = (d', t')"
      by (cases "task_step E c u (sys_db s) t")
    have s': "sys_db (sys_step E s a) = d'"
      using Advance Some st by simp
    consider
        (same) "transactions d' = transactions (sys_db s)"
      | (ins) r where "transactions d' = transactions (sys_db s) @ [r]"
      | (upd) w where "awaiting t = Some w"
          "\<forall>r \<in> set (transactions (sys_db s)). tx_id r \<noteq> w \<longrightarrow> r \<in> set (transactions d')"
      using task_step_ledger[OF st] by blast
    then show ?thesis
    proof cases
      case same
      then show ?thesis using assms(2) s' by simp
    next
      case ins
      then show ?thesis using assms(2) s' by simp
    next
      case upd
      obtain p where p: "p \<in> set (transactions (sys_db s))" "tx_id p = w" "tx_status p = Processing"
        using assms(1) Some upd(1) unfolding ledger_inv_def by blast
      have "distinct (map tx_id (transactions (sys_db s)))"
        using assms(1) unfolding ledger_inv_def by blast
      then have "tx_id row = w \<Longrightarrow> row = p"
        using p(1,2) assms(2) by (auto simp: distinct_map dest: inj_onD)
      then have "tx_id row \<noteq> w"
        using p(3) assms(3) by (auto simp: is_terminal_def)
      then show ?thesis using upd(2) assms(2) s' by simp
    qed
  qed
qed

lemma exec_snoc: "exec E (acts @ [a]) = sys_step E (exec E acts) a"
  by (simp add: exec_def)

lemma ledger_inv_exec: "ledger_inv (exec E acts)"
proof (induction acts rule: rev_induct)
  case Nil
  show ?case by (simp add: exec_def ledger_inv_init)
next
  case (snoc a acts)
  then show ?case by (simp add: exec_snoc ledger_inv_step)
qed

lemma find_distinct_row:
  assumes "distinct (map tx_id xs)" and "row \<in> set xs"
  shows "find (\<lambda>t. tx_id t = tx_id row) xs = Some row"
  using assms by (induction xs) (auto simp: rev_image_eqI)

text \<open>
  C9. Once a transaction is in a terminal status (completed, failed or cancelled), no
  later action of the system changes it: whatever actions follow, in whatever
  interleaving, the ledger holds the same row under that identifier, so its status (and
  every other column) is what it was.
\<close>

theorem terminal_status_immutable:
  assumes "row \<in> set (transactions (sys_db (exec E acts)))" and "is_terminal (tx_status row)"
  shows "find_tx (sys_db (exec E (acts @ later))) (tx_id row) = Some row"
proof -
  have kept: "row \<in> set (transactions (sys_db (exec E (acts @ later))))"
  proof (induction later rule: rev_induct)
    case Nil
    show ?case using assms(1) by simp
  next
    case (snoc a later)
    have "row \<in> set (transactions (sys_db (sys_step E (exec E (acts @ later)) a)))"
      using ledger_inv_exec snoc assms(2) by (rule terminal_kept_step)
    then show ?case by (simp add: exec_snoc flip: append_assoc)
  qed
  have "distinct (map tx_id (transactions (sys_db (exec E (acts @ later)))))"
    using ledger_inv_exec[of E "acts @ later"] unfolding ledger_inv_def by blast
  then show ?thesis unfolding find_tx_def using kept by (rule find_distinct_row)
qed

theorem terminal_status_immutable_witness:
  "first_row \<in> set (transactions (sys_db (exec demo_env race_begin))) \<and>
   is_terminal (tx_status first_row) \<and>
   find_tx (sys_db (exec demo_env (race_begin @ race_end))) (tx_id first_row) = Some first_row"
proof -
  have m: "first_row \<in> set (transactions (sys_db (exec demo_env race_begin)))"
    by (simp add: race_begin_def first_row_def model_defs)
  have t: "is_terminal (tx_status first_row)"
    by (simp add: first_row_def is_terminal_def)
  show ?thesis using m t terminal_status_immutable[OF m t, of race_end] by simp
qed

subsection \<open>The usage counter and the completed transactions\<close>

lemma increment_uses_limit:
  assumes "increment_uses d u = Inr d'" and "list_all check_uses_limit (payment_links d)"
  shows "list_all check_uses_limit (payment_links d')"
proof -
  have no: "\<not> list_ex (\<lambda>l. pl_id l = u \<and> \<not> check_uses_limit (bump_uses u l)) (payment_links d)"
    and d': "payment_links d' = map (bump_uses u) (payment_links d)"
    using assms(1) by (auto simp: increment_uses_def split: if_splits)
  have "check_uses_limit (bump_uses u l)" if "l \<in> set (payment_links d)" for l
  proof (cases "pl_id l = u")
    case True
    then show ?thesis using no that by (auto simp: list_ex_iff)
  next
    case False
    then show ?thesis using assms(2) that by (simp add: bump_uses_def list_all_iff)
  qed
  then show ?thesis by (simp add: d' list_all_iff)
qed

lemma task_step_limit:
  assumes "list_all check_uses_limit (payment_links d)"
  shows "list_all check_uses_limit (payment_links (fst (task_step E c u d t)))"
proof (cases t)
  case (Resolved b l)
  then show ?thesis using assms
    by (auto split: sum.splits dest: insert_transaction_Inr(2))
next
  case (Authorized l w cr r)
  then show ?thesis using assms
    by (auto split: sum.splits dest: update_transaction_Inr(2))
next
  case (Recorded l w cr r)
  then show ?thesis using assms
    by (auto split: sum.splits dest: increment_uses_limit)
qed (use assms in auto)

lemma create_link_limit:
  assumes "list_all check_uses_limit (payment_links d)"
  shows "list_all check_uses_limit (payment_links (fst (create_link E c i tok usr d b)))"
  using assms
  by (auto simp: create_link_def insert_payment_link_def split: sum.splits if_splits)

lemma update_link_limit:
  assumes "list_all check_uses_limit (payment_links d)"
  shows "list_all check_uses_limit (payment_links (fst (update_link usr lid d b)))"
  using assms
  by (auto simp: update_link_def apply_update_def check_uses_limit_def list_all_iff
      split: option.splits)

text \<open>
  In every reachable state every link satisfies the table constraint
  \<^verbatim>\<open>check_uses_limit\<close>: \<open>currentUses\<close> never exceeds \<open>maxUses\<close>.
\<close>

lemma uses_within_limit: "list_all check_uses_limit (payment_links (sys_db (exec E acts)))"
proof (induction acts rule: rev_induct)
  case Nil
  show ?case by (simp add: exec_def init_system_def empty_db_def)
next
  case (snoc a acts)
  show ?case
  proof (cases a)
    case (Arrive n lid b)
    then show ?thesis using snoc
      by (cases "sys_tasks (exec E acts) n") (simp_all add: exec_snoc)
  next
    case (Advance n c u)
    then show ?thesis using snoc
      by (cases "sys_tasks (exec E acts) n") (simp_all add: exec_snoc task_step_limit)
  next
    case (CreateLink c i tok usr b)
    then show ?thesis using snoc by (simp add: exec_snoc create_link_limit)
  next
    case (UpdateLink usr lid b)
    then show ?thesis using snoc by (simp add: exec_snoc update_link_limit)
  qed
qed

text \<open>In every reachable state a link with \<open>maxUses\<close> set has \<open>maxUses \<ge> 1\<close>.\<close>

lemma task_step_links:
  "payment_links (fst (task_step E c u d t)) = payment_links d
   \<or> (\<exists>w. payment_links (fst (task_step E c u d t)) = map (bump_uses w) (payment_links d))"
proof (cases t)
  case (Resolved b l)
  then show ?thesis by (auto split: sum.splits simp: insert_transaction_Inr(2))
next
  case (Authorized l w cr r)
  then show ?thesis by (auto split: sum.splits simp: update_transaction_Inr(2))
next
  case (Recorded l w cr r)
  then show ?thesis by (auto simp: increment_uses_def split: sum.splits if_splits)
qed auto

lemma bump_uses_max: "pl_max_uses (bump_uses w l) = pl_max_uses l"
  by (simp add: bump_uses_def)

lemma create_link_links:
  "payment_links (fst (create_link E c i tok usr d b)) = payment_links d
   \<or> (validate_create b = [] \<and>
       payment_links (fst (create_link E c i tok usr d b)) = payment_links d @ [new_payment_link E c i tok usr b])"
  by (auto simp: create_link_def insert_payment_link_def split: sum.splits if_splits)

lemma new_link_max_uses:
  assumes "validate_create b = []"
  shows "max_uses_positive (new_payment_link E c i tok usr b)"
  using assms
  by (auto simp: validate_create_def check_def max_uses_positive_def new_payment_link_def
      field_option_def split: field.splits if_splits)

lemma update_link_max_uses:
  assumes "list_all max_uses_positive (payment_links d)"
  shows "list_all max_uses_positive (payment_links (fst (update_link usr lid d b)))"
  using assms
  by (auto simp: update_link_def apply_update_def max_uses_positive_def list_all_iff
      split: option.splits)

lemma max_uses_at_least_one: "list_all max_uses_positive (payment_links (sys_db (exec E acts)))"
proof (induction acts rule: rev_induct)
  case Nil
  show ?case by (simp add: exec_def init_system_def empty_db_def)
next
  case (snoc a acts)
  let ?s = "exec E acts"
  show ?case
  proof (cases a)
    case (Arrive n lid b)
    then show ?thesis using snoc
      by (cases "sys_tasks ?s n") (simp_all add: exec_snoc)
  next
    case (Advance n c u)
    show ?thesis
    proof (cases "sys_tasks ?s n")
      case None
      then show ?thesis using snoc Advance by (simp add: exec_snoc)
    next
      case (Some t)
      then show ?thesis
        using snoc Advance task_step_links[of E c u "sys_db ?s" t]
        by (auto simp: exec_snoc list_all_iff max_uses_positive_def bump_uses_max)
    qed
  next
    case (CreateLink c i tok usr b)
    then show ?thesis
      using snoc create_link_links[of E c i tok usr "sys_db ?s" b]
      by (auto simp: exec_snoc new_link_max_uses)
  next
    case (UpdateLink usr lid b)
    then show ?thesis using snoc by (simp add: exec_snoc update_link_max_uses)
  qed
qed

text \<open>
  C1. The capacity invariant fails for the completed transactions. In the run
  \<open>race_begin @ race_end\<close> both requests pass the check of \<^verbatim>\<open>current_uses\<close> against
  \<^verbatim>\<open>max_uses\<close> before either has written, both write \<^verbatim>\<open>completed\<close> to the ledger, and only
  then is the counter incremented: the link with \<open>maxUses = 1\<close> ends with \<open>currentUses = 1\<close>
  and two completed transactions.
\<close>

theorem capacity_exceeded_by_race:
  "map (\<lambda>l. (pl_max_uses l, pl_current_uses l, completed_for race_db (pl_id l)))
     (payment_links race_db) = [(Some 1, 1, 2)]"
  by (simp add: race_db_def race_begin_def race_end_def model_defs)

text \<open>
  C2. The request that loses the race is not finalized as failed. In the same run the
  second request's \<^verbatim>\<open>UPDATE payment_links\<close> is rejected by \<^verbatim>\<open>check_uses_limit\<close>; the
  exception goes to \<^verbatim>\<open>next(error)\<close>, and its transaction, written before the increment,
  stays completed with no failure reason.
\<close>

theorem lost_race_stays_completed:
  "sys_tasks (exec demo_env (race_begin @ race_end)) 1 = Some (Done (ErrorPassed CheckViolation)) \<and>
   map (\<lambda>t. (tx_id t, tx_status t, tx_failure_reason t)) (transactions race_db) =
     [(100, Completed, None), (101, Completed, None)]"
  by (simp add: race_db_def race_begin_def race_end_def model_defs)

subsection \<open>After the ledger entry exists\<close>

lemma resolve_cases:
  "(\<exists>r. resolve E c d lid b = Done r) \<or>
   (\<exists>l. resolve E c d lid b = Resolved (sanitize E b) l \<and> select_link d lid = Some l)"
  by (auto simp: resolve_def split: option.splits)




lemma simulateBankAPI_terminal: "is_terminal (br_status (simulateBankAPI n c))"
  by (simp add: simulateBankAPI_def is_terminal_def)

text \<open>The run of a request whose checks passed, from its \<^verbatim>\<open>INSERT\<close> on.\<close>

lemma process_payment_resolved:
  assumes "resolve E (cs 0) d lid b = Resolved b' l"
  shows "process_payment E cs u d lid b =
     (case insert_transaction d (new_transaction u (now_ms (cs 1)) b' l) of
        Inl e \<Rightarrow> (d, Done (ErrorPassed e))
      | Inr d2 \<Rightarrow>
          task_step E (cs 4) u
            (fst (task_step E (cs 3) u d2 (Authorized l u (now_ms (cs 1)) (simulateBankAPI (cardNumber b') (cvv b')))))
            (snd (task_step E (cs 3) u d2 (Authorized l u (now_ms (cs 1)) (simulateBankAPI (cardNumber b') (cvv b'))))))"
  using assms by (simp add: process_payment_def split: sum.splits prod.splits)

lemma process_payment_rejected:
  assumes "resolve E (cs 0) d lid b = Done r"
  shows "process_payment E cs u d lid b = (d, Done r)"
  using assms by (simp add: process_payment_def)




text \<open>The same under interleaving: the outcome a request has written stays in the ledger.\<close>

lemma recorded_kept:
  assumes "recorded d u r" and "is_terminal (br_status r)"
    and "\<And>row. row \<in> set (transactions d) \<Longrightarrow> is_terminal (tx_status row) \<Longrightarrow> row \<in> set (transactions d')"
  shows "recorded d' u r"
  using assms unfolding recorded_def list_ex_iff by metis

lemma settled_kept:
  assumes "settled d t"
    and "\<And>row. row \<in> set (transactions d) \<Longrightarrow> is_terminal (tx_status row) \<Longrightarrow> row \<in> set (transactions d')"
  shows "settled d' t"
proof (cases t)
  case (Recorded l u c r)
  then show ?thesis using assms recorded_kept[of d u r d'] by auto
next
  case (Done resp)
  then show ?thesis using assms
    by (cases resp) (auto intro: recorded_kept[of d _ _ d'])
qed (use assms in auto)

lemma update_transaction_recorded:
  assumes "update_transaction d u (br_status r) (responseCode r) (responseMessage r) (failureReason r) n = Inr d'"
    and "row \<in> set (transactions d)" and "tx_id row = u"
  shows "recorded d' u r"
proof -
  have "set_outcome (br_status r) (responseCode r) (responseMessage r) (failureReason r) n row
          \<in> set (transactions d')"
    using assms by (auto simp: update_transaction_Inr(3))
  then show ?thesis
    using assms(3) unfolding recorded_def list_ex_iff
    by (intro bexI[where x = "set_outcome (br_status r) (responseCode r) (responseMessage r) (failureReason r) n row"])
       (simp_all add: set_outcome_def)
qed

text \<open>The step of the request itself.\<close>

lemma task_step_settled:
  assumes "settled d t"
    and "\<And>w. awaiting t = Some w \<Longrightarrow> \<exists>row \<in> set (transactions d). tx_id row = w"
  shows "settled (fst (task_step E c u d t)) (snd (task_step E c u d t))"
proof (cases t)
  case (Received lid b)
  then show ?thesis by (auto simp: resolve_def split: option.splits)
next
  case (Resolved b l)
  then show ?thesis by (auto split: sum.splits)
next
  case (Inserted b l w cr)
  then show ?thesis by (simp add: simulateBankAPI_terminal)
next
  case (Authorized l w cr r)
  obtain row where row: "row \<in> set (transactions d)" "tx_id row = w"
    using assms(2) Authorized by auto
  show ?thesis
    using Authorized assms(1) update_transaction_recorded[OF _ row]
    by (auto simp: payment_processed_def split: sum.splits)
next
  case (Recorded l w cr r)
  then show ?thesis using assms(1)
    by (auto simp: payment_processed_def recorded_def increment_uses_transactions split: sum.splits)
next
  case (Done resp)
  then show ?thesis using assms(1) by simp
qed

lemma outcome_inv_step:
  assumes "ledger_inv s" and "outcome_inv s"
  shows "outcome_inv (sys_step E s a)"
  unfolding outcome_inv_def
proof (intro allI impI)
  fix n t
  assume t: "sys_tasks (sys_step E s a) n = Some t"
  have kept: "\<And>row. row \<in> set (transactions (sys_db s)) \<Longrightarrow> is_terminal (tx_status row) \<Longrightarrow>
      row \<in> set (transactions (sys_db (sys_step E s a)))"
    using assms(1) by (rule terminal_kept_step)
  show "settled (sys_db (sys_step E s a)) t"
  proof (cases "sys_tasks s n = Some t")
    case True
    then have "settled (sys_db s) t" using assms(2) by (simp add: outcome_inv_def)
    then show ?thesis using kept by (rule settled_kept)
  next
    case False
    show ?thesis
    proof (cases a)
      case (Arrive m lid b)
      then show ?thesis using t False
        by (cases "sys_tasks s m") (auto split: if_splits)
    next
      case (CreateLink c i tok usr b)
      then show ?thesis using t False by simp
    next
      case (UpdateLink usr lid b)
      then show ?thesis using t False by simp
    next
      case (Advance m c u)
      show ?thesis
      proof (cases "sys_tasks s m")
        case None
        then show ?thesis using t False Advance by simp
      next
        case (Some t0)
        have mn: "m = n" using t False Advance Some by (auto split: if_splits)
        have t0: "settled (sys_db s) t0" using assms(2) Some by (simp add: outcome_inv_def)
        have row: "\<And>w. awaiting t0 = Some w \<Longrightarrow> \<exists>row \<in> set (transactions (sys_db s)). tx_id row = w"
          using assms(1) Some unfolding ledger_inv_def by blast
        show ?thesis
          using task_step_settled[OF t0 row, of E c u] t Advance Some mn by simp
      qed
    qed
  qed
qed

lemma outcome_inv_exec: "outcome_inv (exec E acts)"
proof (induction acts rule: rev_induct)
  case Nil
  show ?case by (simp add: exec_def outcome_inv_def init_system_def)
next
  case (snoc a acts)
  then show ?case by (simp add: exec_snoc outcome_inv_step ledger_inv_exec)
qed

text \<open>
  In every reachable state, a request answered with the normal result has its row in the
  gateway's terminal status, with the gateway's code, message and reason.
\<close>

lemma answered_rows_recorded:
  assumes "sys_tasks (exec E acts) n = Some (Done (PaymentProcessed v r))"
  shows "is_terminal (br_status r) \<and> v_status v = br_status r \<and> recorded (sys_db (exec E acts)) (v_id v) r"
  using outcome_inv_exec[of E acts] assms unfolding outcome_inv_def by fastforce

subsection \<open>The decline path\<close>

lemma sanitize_card: "cardNumber (sanitize E b) = cardNumber b" "cvv (sanitize E b) = cvv b"
  by (simp_all add: sanitize_def)

text \<open>A run whose gateway response is a decline leaves the table of links as it was.\<close>

lemma decline_keeps_links:
  assumes "br_status (simulateBankAPI (cardNumber b) (cvv b)) \<noteq> Completed"
  shows "payment_links (fst (process_payment E cs u d lid b)) = payment_links d"
proof -
  consider (rej) r where "resolve E (cs 0) d lid b = Done r"
    | (res) l where "resolve E (cs 0) d lid b = Resolved (sanitize E b) l"
    using resolve_cases[of E "cs 0" d lid b] by blast
  then show ?thesis
  proof cases
    case rej
    then show ?thesis by (simp add: process_payment_rejected)
  next
    case res
    show ?thesis
      using assms process_payment_resolved[of E cs d lid b "sanitize E b" l u, OF res]
      by (auto simp: sanitize_card insert_transaction_Inr(2) update_transaction_Inr(2)
          split: sum.splits)
  qed
qed

text \<open>
  C5. The decline with code \<^verbatim>\<open>INVALID_CVV\<close> is not recorded: the gateway's answer is a
  decline, the \<^verbatim>\<open>UPDATE transactions\<close> that would store it is rejected
  (\<^verbatim>\<open>bank_response_code\<close> is \<^verbatim>\<open>VARCHAR(10)\<close>), and the row keeps status processing with no
  code and no failure reason.
\<close>

theorem invalid_cvv_decline_not_recorded:
  "simulateBankAPI ''4111111111111111'' ''120'' =
     \<lparr>br_status = Failed, responseCode = ''INVALID_CVV'',
      responseMessage = ''Invalid security code'', failureReason = Some ''Incorrect CVV''\<rparr> \<and>
   map (\<lambda>t. (tx_status t, tx_bank_response_code t, tx_failure_reason t)) (transactions (fst cvv_run))
     = [(Processing, None, None)] \<and>
   payment_links (fst cvv_run) = payment_links linked_db"
  by (simp add: cvv_run_def linked_db_def model_defs)

subsection \<open>The wait for the gateway\<close>




subsection \<open>The checks before the ledger entry\<close>

lemma process_payment_outcome:
  assumes "resolve E (cs 0) d lid b = Resolved b' l"
  shows "(\<exists>v r. snd (process_payment E cs u d lid b) = Done (PaymentProcessed v r))
       \<or> (\<exists>e. snd (process_payment E cs u d lid b) = Done (ErrorPassed e))"
  using process_payment_resolved[of E cs d lid b b' l u, OF assms]
  by (auto simp: payment_processed_def split: sum.splits if_splits)

text \<open>
  C4, as the code has it. The validators of the route run first, so the statement is for
  a body they accept, on a token that names a link. Then: an inactive link is answered
  with LinkInactive; an active link whose \<open>expiresAt\<close> lies before the clock with
  LinkExpired; an active, unexpired link whose \<open>maxUses\<close> is set (and not 0) and reached by
  \<open>currentUses\<close> with LinkExhausted; in each case the database is returned as it was (no
  transaction row, no change to the link). A link whose \<open>expiresAt\<close> lies in the future is
  never answered with LinkExpired, and an active, unexpired, unexhausted link with none
  of the three.
\<close>

theorem precheck_rejections:
  assumes "validate_process E b = []" and "select_link d lid = Some l"
  shows
    "(\<not> pl_is_active l \<longrightarrow> process_payment E cs u d lid b = (d, Done LinkInactive)) \<and>
     (pl_is_active l \<and> (\<exists>e. pl_expires_at l = Some e \<and> e < now_ms (cs 0)) \<longrightarrow>
        process_payment E cs u d lid b = (d, Done LinkExpired)) \<and>
     (pl_is_active l \<and> \<not> (\<exists>e. pl_expires_at l = Some e \<and> e < now_ms (cs 0)) \<and>
      (\<exists>m. pl_max_uses l = Some m \<and> m \<noteq> 0 \<and> m \<le> pl_current_uses l) \<longrightarrow>
        process_payment E cs u d lid b = (d, Done LinkExhausted)) \<and>
     ((\<exists>e. pl_expires_at l = Some e \<and> now_ms (cs 0) < e) \<longrightarrow>
        snd (process_payment E cs u d lid b) \<noteq> Done LinkExpired) \<and>
     (pl_is_active l \<and> \<not> (\<exists>e. pl_expires_at l = Some e \<and> e < now_ms (cs 0)) \<and>
      \<not> (\<exists>m. pl_max_uses l = Some m \<and> m \<noteq> 0 \<and> m \<le> pl_current_uses l) \<longrightarrow>
        snd (process_payment E cs u d lid b) \<notin> {Done LinkInactive, Done LinkExpired, Done LinkExhausted})"
proof -
  have exp: "link_expired (cs 0) l \<longleftrightarrow> (\<exists>e. pl_expires_at l = Some e \<and> e < now_ms (cs 0))"
    by (auto simp: link_expired_def split: option.splits)
  have exh: "link_exhausted l \<longleftrightarrow> (\<exists>m. pl_max_uses l = Some m \<and> m \<noteq> 0 \<and> m \<le> pl_current_uses l)"
    by (auto simp: link_exhausted_def split: option.splits)
  have r: "resolve E (cs 0) d lid b =
      (if \<not> pl_is_active l then Done LinkInactive
       else if link_expired (cs 0) l then Done LinkExpired
       else if link_exhausted l then Done LinkExhausted
       else if card_expired (cs 0) (sanitize E b) then Done CardExpired
       else Resolved (sanitize E b) l)"
    using assms by (simp add: resolve_def)
  have past: "snd (process_payment E cs u d lid b) \<notin> {Done LinkInactive, Done LinkExpired, Done LinkExhausted}"
    if "pl_is_active l" "\<not> link_expired (cs 0) l" "\<not> link_exhausted l"
  proof (cases "card_expired (cs 0) (sanitize E b)")
    case True
    then show ?thesis using r that by (simp add: process_payment_rejected)
  next
    case False
    then have "resolve E (cs 0) d lid b = Resolved (sanitize E b) l"
      using r that by simp
    from process_payment_outcome[of E cs d lid b "sanitize E b" l u, OF this] show ?thesis by auto
  qed
  have notexp: "snd (process_payment E cs u d lid b) \<noteq> Done LinkExpired"
    if "\<not> link_expired (cs 0) l"
  proof (cases "\<exists>r. resolve E (cs 0) d lid b = Done r")
    case True
    then show ?thesis using r that by (auto simp: process_payment_rejected split: if_splits)
  next
    case False
    then have "resolve E (cs 0) d lid b = Resolved (sanitize E b) l"
      using r by (auto split: if_splits)
    from process_payment_outcome[of E cs d lid b "sanitize E b" l u, OF this] show ?thesis by auto
  qed
  show ?thesis
    using r past notexp unfolding exp exh
    by (auto simp: process_payment_rejected)
qed

theorem precheck_rejections_witness:
  "validate_process demo_env good_payer = [] \<and>
   select_link inactive_db demo_token = Some (demo_link\<lparr>pl_is_active := False\<rparr>) \<and>
   process_payment demo_env step_clock 200 inactive_db demo_token good_payer
     = (inactive_db, Done LinkInactive) \<and>
   select_link linked_db demo_token = Some demo_link \<and>
   process_payment demo_env late_clock 200 linked_db demo_token good_payer
     = (linked_db, Done LinkExpired) \<and>
   select_link race_db demo_token = Some (demo_link\<lparr>pl_current_uses := 1\<rparr>) \<and>
   process_payment demo_env step_clock 200 race_db demo_token good_payer
     = (race_db, Done LinkExhausted) \<and>
   snd (process_payment demo_env step_clock 200 linked_db demo_token good_payer)
     \<notin> {Done LinkInactive, Done LinkExpired, Done LinkExhausted}"
proof -
  have v: "validate_process demo_env good_payer = []"
    by (simp add: run_defs model_defs)
  have s1: "select_link inactive_db demo_token = Some (demo_link\<lparr>pl_is_active := False\<rparr>)"
    by (simp add: run_defs model_defs)
  have s2: "select_link linked_db demo_token = Some demo_link"
    by (simp add: run_defs model_defs)
  have s3: "select_link race_db demo_token = Some (demo_link\<lparr>pl_current_uses := 1\<rparr>)"
    by (simp add: run_defs model_defs)
  note t1 = precheck_rejections[OF v s1, of step_clock 200]
  note t2 = precheck_rejections[OF v s2, of late_clock 200]
  note t3 = precheck_rejections[OF v s3, of step_clock 200]
  note t4 = precheck_rejections[OF v s2, of step_clock 200]
  show ?thesis
    using v s1 s2 s3 t1 t2 t3 t4
    by (simp add: demo_link_def late_clock_def step_clock_def at_ms_def)
qed

text \<open>
  C4 as stated fails: on the deactivated link a body with a two-digit card number is
  answered with the validation error, not with LinkInactive.
\<close>

theorem inactive_link_malformed_card:
  "select_link inactive_db demo_token = Some (demo_link\<lparr>pl_is_active := False\<rparr>) \<and>
   process_payment demo_env step_clock 200 inactive_db demo_token short_card_payer
     = (inactive_db,
        Done (ValidationFailed [(''cardNumber'', ''Card number must be between 13 and 19 digits'')]))"
  by (simp add: run_defs model_defs)

subsection \<open>Resolving the token\<close>

text \<open>
  C8, as the code has it. For a token that names no link the database is returned as it
  was, and the answer is NotFound when the body passes the validators of the route and
  the validation error when it does not: validation is the first step, the lookup the
  second.
\<close>

theorem unknown_token:
  assumes "select_link d lid = None"
  shows "process_payment E cs u d lid b =
     (d, Done (if validate_process E b = [] then NotFound else ValidationFailed (validate_process E b)))"
  using assms by (simp add: resolve_def process_payment_rejected)


theorem unknown_token_witness:
  "select_link linked_db unknown_token_id = None \<and>
   process_payment demo_env step_clock 200 linked_db unknown_token_id good_payer
     = (linked_db, Done NotFound)"
proof -
  have s: "select_link linked_db unknown_token_id = None"
    by (simp add: run_defs model_defs)
  have v: "validate_process demo_env good_payer = []"
    by (simp add: run_defs model_defs)
  show ?thesis
    using s unknown_token[OF s, of demo_env step_clock 200 good_payer] by (simp add: v)
qed

text \<open>
  C8 as stated fails: an unknown token together with a two-digit card number is answered
  with the validation error, not with NotFound.
\<close>

theorem unknown_token_malformed_card:
  "select_link linked_db unknown_token_id = None \<and>
   process_payment demo_env step_clock 200 linked_db unknown_token_id short_card_payer
     = (linked_db,
        Done (ValidationFailed [(''cardNumber'', ''Card number must be between 13 and 19 digits'')]))"
  by (simp add: run_defs model_defs)

subsection \<open>Link creation\<close>

lemma check_fields: "fst ` set (check ok f m) = (if ok then {} else {f})"
  by (simp add: check_def)




text \<open>
  C10, as the code has it. A link created from a request without \<open>expiresAt\<close> is stored
  with an expiry that is not null: the clock plus \<^verbatim>\<open>PAYMENT_LINK_EXPIRY_HOURS\<close> hours, and
  plus 24 hours when that value is unset, not a number, or 0.
\<close>

theorem default_expiry:
  assumes "expiresAt b = Absent" and "create_link E c i tok usr d b = (d', LinkCreated l)"
  shows "pl_expires_at l =
           Some (now_ms c +
             (case PAYMENT_LINK_EXPIRY_HOURS E of None \<Rightarrow> 24 | Some h \<Rightarrow> if h = 0 then 24 else h)
               * 3600000) \<and>
         l \<in> set (payment_links d')"
  using assms
  by (auto simp: create_link_def insert_payment_link_def new_payment_link_def expiryDate_def
      defaultExpiryHours_def HOUR_MS_def split: if_splits sum.splits)

theorem default_expiry_witness:
  "expiresAt one_use_link = Absent \<and>
   create_link two_days_env (at_ms 1000) 7 demo_token 1 empty_db one_use_link
     = (\<lparr>payment_links = [demo_link\<lparr>pl_expires_at := Some 172801000\<rparr>], transactions = []\<rparr>,
        LinkCreated (demo_link\<lparr>pl_expires_at := Some 172801000\<rparr>)) \<and>
   pl_expires_at (demo_link\<lparr>pl_expires_at := Some 172801000\<rparr>) = Some (1000 + 48 * 3600000)"
proof -
  have a: "expiresAt one_use_link = Absent"
    by (simp add: one_use_link_def)
  have c: "create_link two_days_env (at_ms 1000) 7 demo_token 1 empty_db one_use_link
     = (\<lparr>payment_links = [demo_link\<lparr>pl_expires_at := Some 172801000\<rparr>], transactions = []\<rparr>,
        LinkCreated (demo_link\<lparr>pl_expires_at := Some 172801000\<rparr>))"
    by (simp add: run_defs model_defs)
  show ?thesis
    using a c default_expiry[OF a c] by (simp add: two_days_env_def at_ms_def)
qed

text \<open>
  C10 as stated fails for \<^verbatim>\<open>PAYMENT_LINK_EXPIRY_HOURS=0\<close>: the link expires 24 hours after
  the clock, not 0 hours.
\<close>

theorem zero_hours_gives_a_day:
  "expiresAt one_use_link = Absent \<and>
   PAYMENT_LINK_EXPIRY_HOURS zero_hours_env = Some 0 \<and>
   map pl_expires_at
     (payment_links (fst (create_link zero_hours_env (at_ms 1000) 7 demo_token 1 empty_db one_use_link)))
     = [Some (1000 + 24 * 3600000)]"
  by (simp add: run_defs model_defs)

end
